theory Spec2Isabelle
  imports Main
begin

section \<open>Values, fields and levels\<close>

text \<open>
  The facade of \<^verbatim>\<open>logrus.go\<close> lives in package \<^verbatim>\<open>logger\<close>. The package's own \<^verbatim>\<open>Level\<close>
  type and its six constants \<^verbatim>\<open>DebugLevel\<close> .. \<^verbatim>\<open>PanicLevel\<close> are declared in another file
  than \<^verbatim>\<open>logrus.go\<close>. The panic message of \<^verbatim>\<open>ltolr\<close> prints a level with \<^verbatim>\<open>%d\<close>, so a
  level is an integer; the six constants are a parameter of the model, a record of six
  integers. Go refuses a \<^verbatim>\<open>switch\<close> that lists one constant twice, so the six values
  of a program that compiles are pairwise distinct.
\<close>

record levels =
  DebugLevel :: int
  InfoLevel :: int
  WarnLevel :: int
  ErrorLevel :: int
  FatalLevel :: int
  PanicLevel :: int

definition level_values :: "levels \<Rightarrow> int list" where
  "level_values c =
     [DebugLevel c, InfoLevel c, WarnLevel c, ErrorLevel c, FatalLevel c, PanicLevel c]"

text \<open>
  A field value: what \<^verbatim>\<open>AddStr\<close>, \<^verbatim>\<open>AddInt\<close>, \<^verbatim>\<open>AddBool\<close>, \<^verbatim>\<open>AddTime\<close> and \<^verbatim>\<open>AddDur\<close>
  box into an \<^verbatim>\<open>interface{}\<close>. No function of the facade computes with a value, so Go's
  \<^verbatim>\<open>int\<close>, \<^verbatim>\<open>time.Time\<close> and \<^verbatim>\<open>time.Duration\<close> are carried as integers. The values
  that \<^verbatim>\<open>AddAny\<close> and \<^verbatim>\<open>AddFields\<close> take are data of these five shapes; function
  values, which the backend declines to store, are outside the model.
\<close>

datatype val = VStr string | VInt int | VBool bool | VTime int | VDur int

type_synonym Fields = "string \<rightharpoonup> val"

section \<open>The backend\<close>

text \<open>
  The backend is the library \<^verbatim>\<open>github.com/sirupsen/logrus\<close>. The model keeps what the
  facade relies on: the severity levels, a logger with an output and a threshold, an
  entry that is a logger with a map of fields, \<^verbatim>\<open>WithField\<close> and \<^verbatim>\<open>WithFields\<close> that
  return a new entry whose map is a copy of the old one with the given fields set, and
  \<^verbatim>\<open>Logln\<close>, which emits the record when the threshold admits its level and never
  exits the process by itself. Whether \<^verbatim>\<open>Logln\<close> unwinds at the panic level is the
  backend's matter and is left open: it is a parameter of \<^verbatim>\<open>Logln\<close>.
\<close>

datatype logrus_Level =
  logrus_PanicLevel | logrus_FatalLevel | logrus_ErrorLevel | logrus_WarnLevel
  | logrus_InfoLevel | logrus_DebugLevel | logrus_TraceLevel

fun severity :: "logrus_Level \<Rightarrow> nat" where
  "severity logrus_PanicLevel = 0"
| "severity logrus_FatalLevel = 1"
| "severity logrus_ErrorLevel = 2"
| "severity logrus_WarnLevel = 3"
| "severity logrus_InfoLevel = 4"
| "severity logrus_DebugLevel = 5"
| "severity logrus_TraceLevel = 6"

type_synonym io_Writer = nat

record logrus_Logger =
  Out :: io_Writer
  LogLevel :: logrus_Level

record logrus_Entry =
  Logger :: logrus_Logger
  Data :: Fields

datatype FieldLogger = FL_Logger logrus_Logger | FL_Entry logrus_Entry

record log_record =
  rec_level :: logrus_Level
  rec_fields :: Fields
  rec_msg :: string

text \<open>
  What the program does to the outside, in order: a record handed to the backend by a
  call of \<^verbatim>\<open>Logln\<close>, a record the backend wrote to an output, a call of \<^verbatim>\<open>os.Exit\<close>.
\<close>

datatype event = Logln_call log_record | Output io_Writer log_record | OsExit int

datatype panic_val =
  CantMapLevel int \<comment> \<open>\<^verbatim>\<open>Can't map level %d to logrus level\<close>\<close>
  | NilDeref \<comment> \<open>a method called through a nil pointer or a nil interface\<close>
  | LogrusPanic log_record \<comment> \<open>the panic of a backend that unwinds at the panic level\<close>

datatype 'a result = Returned 'a | Panicked panic_val | Exited int

section \<open>The program state\<close>

text \<open>
  The clock is what \<^verbatim>\<open>time.Now()\<close> reads. The objects behind \<^verbatim>\<open>*lLog\<close> and \<^verbatim>\<open>*lEntry\<close>
  pointers live in two stores; an address is an index, \<^verbatim>\<open>&lLog{..}\<close> and \<^verbatim>\<open>&lEntry{..}\<close>
  allocate at the end, and an address that holds no object stands for nil.
\<close>

type_synonym addr = nat

record lLog =
  writer :: FieldLogger

record lEntry =
  level :: logrus_Level
  entry :: logrus_Entry

record world =
  clock :: int
  logs :: "lLog list"
  ents :: "lEntry list"
  trace :: "event list"

definition deref :: "'a list \<Rightarrow> addr \<Rightarrow> 'a option" where
  "deref xs a = (if a < length xs then Some (xs ! a) else None)"

definition time_Now :: "world \<Rightarrow> int" where
  "time_Now s = clock s"

definition os_Exit :: "int \<Rightarrow> world \<Rightarrow> 'a result \<times> world" where
  "os_Exit code s = (Exited code, s\<lparr>trace := trace s @ [OsExit code]\<rparr>)"

definition andThen ::
  "(world \<Rightarrow> 'a result \<times> world) \<Rightarrow> ('a \<Rightarrow> world \<Rightarrow> 'b result \<times> world)
   \<Rightarrow> world \<Rightarrow> 'b result \<times> world" where
  "andThen m f s =
     (case m s of
        (Returned x, s1) \<Rightarrow> f x s1
      | (Panicked v, s1) \<Rightarrow> (Panicked v, s1)
      | (Exited n, s1) \<Rightarrow> (Exited n, s1))"

subsection \<open>Backend operations\<close>

definition NewEntry :: "logrus_Logger \<Rightarrow> logrus_Entry" where
  "NewEntry lg = \<lparr>Logger = lg, Data = Map.empty\<rparr>"

definition Entry_WithFields :: "logrus_Entry \<Rightarrow> Fields \<Rightarrow> logrus_Entry" where
  "Entry_WithFields e fs = e\<lparr>Data := Data e ++ fs\<rparr>"

definition Entry_WithField :: "logrus_Entry \<Rightarrow> string \<Rightarrow> val \<Rightarrow> logrus_Entry" where
  "Entry_WithField e key v = Entry_WithFields e [key \<mapsto> v]"

fun FieldLogger_WithField :: "FieldLogger \<Rightarrow> string \<Rightarrow> val \<Rightarrow> logrus_Entry" where
  "FieldLogger_WithField (FL_Logger lg) key v = Entry_WithField (NewEntry lg) key v"
| "FieldLogger_WithField (FL_Entry e) key v = Entry_WithField e key v"

text \<open>
  \<^verbatim>\<open>Logln(level, msg)\<close> on an entry: the record is the level, the entry's fields and the
  message. The logger's threshold decides whether the record is written; the panic level
  is the most severe, so it is always admitted. The code of the facade does not say
  whether the backend then unwinds: \<open>unwinds\<close> is true for a backend that panics once a
  record of the panic level is written, and false for one that returns. Logging at the
  fatal level through \<^verbatim>\<open>Logln\<close> does not exit the process.
\<close>

definition IsLevelEnabled :: "logrus_Logger \<Rightarrow> logrus_Level \<Rightarrow> bool" where
  "IsLevelEnabled lg lv = (severity lv \<le> severity (LogLevel lg))"

definition Entry_Logln ::
  "bool \<Rightarrow> logrus_Entry \<Rightarrow> logrus_Level \<Rightarrow> string \<Rightarrow> world \<Rightarrow> unit result \<times> world" where
  "Entry_Logln unwinds e lv msg s =
     (let r = \<lparr>rec_level = lv, rec_fields = Data e, rec_msg = msg\<rparr>;
          s1 = s\<lparr>trace := trace s @ [Logln_call r]\<rparr>
      in if IsLevelEnabled (Logger e) lv
         then (let s2 = s1\<lparr>trace := trace s1 @ [Output (Out (Logger e)) r]\<rparr>
               in if unwinds \<and> severity lv \<le> severity logrus_PanicLevel
                  then (Panicked (LogrusPanic r), s2)
                  else (Returned (), s2))
         else (Returned (), s1))"

section \<open>The facade\<close>

definition ltolr :: "levels \<Rightarrow> int \<Rightarrow> logrus_Level result" where
  "ltolr c lvl =
     (if lvl = DebugLevel c then Returned logrus_DebugLevel
      else if lvl = InfoLevel c then Returned logrus_InfoLevel
      else if lvl = WarnLevel c then Returned logrus_WarnLevel
      else if lvl = ErrorLevel c then Returned logrus_ErrorLevel
      else if lvl = FatalLevel c then Returned logrus_FatalLevel
      else if lvl = PanicLevel c then Returned logrus_PanicLevel
      else Panicked (CantMapLevel lvl))"

definition new_lLog :: "lLog \<Rightarrow> world \<Rightarrow> addr result \<times> world" where
  "new_lLog x s = (Returned (length (logs s)), s\<lparr>logs := logs s @ [x]\<rparr>)"

definition new_lEntry :: "lEntry \<Rightarrow> world \<Rightarrow> addr result \<times> world" where
  "new_lEntry x s = (Returned (length (ents s)), s\<lparr>ents := ents s @ [x]\<rparr>)"

definition newLogrus :: "levels \<Rightarrow> io_Writer \<Rightarrow> int \<Rightarrow> world \<Rightarrow> addr result \<times> world" where
  "newLogrus c w lvl s =
     (case ltolr c lvl of
        Returned ll \<Rightarrow> new_lLog \<lparr>writer = FL_Logger \<lparr>Out = w, LogLevel = ll\<rparr>\<rparr> s
      | Panicked v \<Rightarrow> (Panicked v, s)
      | Exited n \<Rightarrow> (Exited n, s))"

definition WithField :: "addr \<Rightarrow> string \<Rightarrow> string \<Rightarrow> world \<Rightarrow> addr result \<times> world" where
  "WithField l key v s =
     (case deref (logs s) l of
        None \<Rightarrow> (Panicked NilDeref, s)
      | Some lg \<Rightarrow>
          new_lLog \<lparr>writer = FL_Entry (FieldLogger_WithField (writer lg) key (VStr v))\<rparr> s)"

definition Debug :: "addr \<Rightarrow> world \<Rightarrow> addr result \<times> world" where
  "Debug l s =
     (case deref (logs s) l of
        None \<Rightarrow> (Panicked NilDeref, s)
      | Some lg \<Rightarrow>
          new_lEntry \<lparr>level = logrus_DebugLevel,
            entry = FieldLogger_WithField (writer lg) ''time'' (VTime (time_Now s))\<rparr> s)"

definition Info :: "addr \<Rightarrow> world \<Rightarrow> addr result \<times> world" where
  "Info l s =
     (case deref (logs s) l of
        None \<Rightarrow> (Panicked NilDeref, s)
      | Some lg \<Rightarrow>
          new_lEntry \<lparr>level = logrus_InfoLevel,
            entry = FieldLogger_WithField (writer lg) ''time'' (VTime (time_Now s))\<rparr> s)"

definition Warn :: "addr \<Rightarrow> world \<Rightarrow> addr result \<times> world" where
  "Warn l s =
     (case deref (logs s) l of
        None \<Rightarrow> (Panicked NilDeref, s)
      | Some lg \<Rightarrow>
          new_lEntry \<lparr>level = logrus_WarnLevel,
            entry = FieldLogger_WithField (writer lg) ''time'' (VTime (time_Now s))\<rparr> s)"

definition Error :: "addr \<Rightarrow> world \<Rightarrow> addr result \<times> world" where
  "Error l s =
     (case deref (logs s) l of
        None \<Rightarrow> (Panicked NilDeref, s)
      | Some lg \<Rightarrow>
          new_lEntry \<lparr>level = logrus_ErrorLevel,
            entry = FieldLogger_WithField (writer lg) ''time'' (VTime (time_Now s))\<rparr> s)"

definition Fatal :: "addr \<Rightarrow> world \<Rightarrow> addr result \<times> world" where
  "Fatal l s =
     (case deref (logs s) l of
        None \<Rightarrow> (Panicked NilDeref, s)
      | Some lg \<Rightarrow>
          new_lEntry \<lparr>level = logrus_FatalLevel,
            entry = FieldLogger_WithField (writer lg) ''time'' (VTime (time_Now s))\<rparr> s)"

definition Panic :: "addr \<Rightarrow> world \<Rightarrow> addr result \<times> world" where
  "Panic l s =
     (case deref (logs s) l of
        None \<Rightarrow> (Panicked NilDeref, s)
      | Some lg \<Rightarrow>
          new_lEntry \<lparr>level = logrus_PanicLevel,
            entry = FieldLogger_WithField (writer lg) ''time'' (VTime (time_Now s))\<rparr> s)"

definition Level :: "levels \<Rightarrow> addr \<Rightarrow> int \<Rightarrow> world \<Rightarrow> addr result \<times> world" where
  "Level c l lvl s =
     (if lvl = DebugLevel c then Debug l s
      else if lvl = InfoLevel c then Info l s
      else if lvl = WarnLevel c then Warn l s
      else if lvl = ErrorLevel c then Error l s
      else if lvl = FatalLevel c then Fatal l s
      else if lvl = PanicLevel c then Panic l s
      else Info l s)"

text \<open>
  The methods of \<^verbatim>\<open>*lEntry\<close>. Each \<^verbatim>\<open>Add\<close> method assigns \<^verbatim>\<open>l.entry\<close> and returns the
  receiver itself; \<^verbatim>\<open>set_entry l f\<close> is the assignment \<^verbatim>\<open>l.entry = f(l.entry)\<close>.
\<close>

definition set_entry ::
  "addr \<Rightarrow> (logrus_Entry \<Rightarrow> logrus_Entry) \<Rightarrow> world \<Rightarrow> unit result \<times> world" where
  "set_entry l f s =
     (case deref (ents s) l of
        None \<Rightarrow> (Panicked NilDeref, s)
      | Some e \<Rightarrow> (Returned (), s\<lparr>ents := (ents s)[l := e\<lparr>entry := f (entry e)\<rparr>]\<rparr>))"

definition Flush :: "bool \<Rightarrow> addr \<Rightarrow> string \<Rightarrow> world \<Rightarrow> unit result \<times> world" where
  "Flush unwinds l msg s =
     (case deref (ents s) l of
        None \<Rightarrow> (Panicked NilDeref, s)
      | Some e \<Rightarrow>
          andThen (Entry_Logln unwinds (entry e) (level e) msg)
            (\<lambda>_ s1. if level e = logrus_FatalLevel then os_Exit 1 s1 else (Returned (), s1)) s)"

definition AddFields :: "addr \<Rightarrow> Fields \<Rightarrow> world \<Rightarrow> addr result \<times> world" where
  "AddFields l fs s =
     andThen (set_entry l (\<lambda>e. Entry_WithFields e fs)) (\<lambda>_ s1. (Returned l, s1)) s"

text \<open>
  An \<^verbatim>\<open>error\<close> is an interface value: nil (\<open>None\<close>) or an object. The object's method
  \<^verbatim>\<open>Error()\<close> and the library function \<^verbatim>\<open>errors.ErrorStack\<close> (of \<^verbatim>\<open>github.com/juju/errors\<close>)
  are the parameters \<open>msg_of\<close> and \<open>stack_of\<close>. Calling \<^verbatim>\<open>Error()\<close> on the nil interface
  panics before anything else happens.
\<close>

definition AddErr ::
  "('e \<Rightarrow> string) \<Rightarrow> ('e \<Rightarrow> string) \<Rightarrow> addr \<Rightarrow> 'e option \<Rightarrow> world \<Rightarrow> addr result \<times> world" where
  "AddErr msg_of stack_of l err s =
     (case err of
        None \<Rightarrow> (Panicked NilDeref, s)
      | Some e \<Rightarrow>
          (let msg = msg_of e; st = stack_of e
           in andThen (set_entry l (\<lambda>en. Entry_WithField en ''err'' (VStr msg)))
                (\<lambda>_. andThen (set_entry l (\<lambda>en. Entry_WithField en ''err_stack'' (VStr st)))
                   (\<lambda>_ s2. (Returned l, s2))) s))"

definition AddError ::
  "('e \<Rightarrow> string) \<Rightarrow> ('e \<Rightarrow> string) \<Rightarrow> addr \<Rightarrow> string \<Rightarrow> 'e option \<Rightarrow> world
   \<Rightarrow> addr result \<times> world" where
  "AddError msg_of stack_of l key err s =
     (case err of
        None \<Rightarrow> (Panicked NilDeref, s)
      | Some e \<Rightarrow>
          (let msg = msg_of e; st = stack_of e
           in andThen (set_entry l (\<lambda>en. Entry_WithField en key (VStr msg)))
                (\<lambda>_. andThen (set_entry l (\<lambda>en. Entry_WithField en (key @ ''_stack'') (VStr st)))
                   (\<lambda>_ s2. (Returned l, s2))) s))"

definition AddBool :: "addr \<Rightarrow> string \<Rightarrow> bool \<Rightarrow> world \<Rightarrow> addr result \<times> world" where
  "AddBool l key v s =
     andThen (set_entry l (\<lambda>e. Entry_WithField e key (VBool v))) (\<lambda>_ s1. (Returned l, s1)) s"

definition AddInt :: "addr \<Rightarrow> string \<Rightarrow> int \<Rightarrow> world \<Rightarrow> addr result \<times> world" where
  "AddInt l key v s =
     andThen (set_entry l (\<lambda>e. Entry_WithField e key (VInt v))) (\<lambda>_ s1. (Returned l, s1)) s"

definition AddStr :: "addr \<Rightarrow> string \<Rightarrow> string \<Rightarrow> world \<Rightarrow> addr result \<times> world" where
  "AddStr l key v s =
     andThen (set_entry l (\<lambda>e. Entry_WithField e key (VStr v))) (\<lambda>_ s1. (Returned l, s1)) s"

definition AddTime :: "addr \<Rightarrow> string \<Rightarrow> int \<Rightarrow> world \<Rightarrow> addr result \<times> world" where
  "AddTime l key v s =
     andThen (set_entry l (\<lambda>e. Entry_WithField e key (VTime v))) (\<lambda>_ s1. (Returned l, s1)) s"

definition AddDur :: "addr \<Rightarrow> string \<Rightarrow> int \<Rightarrow> world \<Rightarrow> addr result \<times> world" where
  "AddDur l key v s =
     andThen (set_entry l (\<lambda>e. Entry_WithField e key (VDur v))) (\<lambda>_ s1. (Returned l, s1)) s"

definition AddAny :: "addr \<Rightarrow> string \<Rightarrow> val \<Rightarrow> world \<Rightarrow> addr result \<times> world" where
  "AddAny l key v s =
     andThen (set_entry l (\<lambda>e. Entry_WithField e key v)) (\<lambda>_ s1. (Returned l, s1)) s"

section \<open>Observations and call sequences\<close>

text \<open>The persistent fields of a Logger: none for a bare backend logger.\<close>

fun fields_of :: "FieldLogger \<Rightarrow> Fields" where
  "fields_of (FL_Logger lg) = Map.empty"
| "fields_of (FL_Entry e) = Data e"

fun logger_of :: "FieldLogger \<Rightarrow> logrus_Logger" where
  "logger_of (FL_Logger lg) = lg"
| "logger_of (FL_Entry e) = Logger e"

text \<open>The six level-named constructors of a Logger.\<close>

definition constructors :: "((addr \<Rightarrow> world \<Rightarrow> addr result \<times> world) \<times> logrus_Level) list" where
  "constructors =
     [(Debug, logrus_DebugLevel), (Info, logrus_InfoLevel), (Warn, logrus_WarnLevel),
      (Error, logrus_ErrorLevel), (Fatal, logrus_FatalLevel), (Panic, logrus_PanicLevel)]"

text \<open>
  One call of an \<^verbatim>\<open>Add\<close> method with its arguments, and a fluent chain
  \<^verbatim>\<open>e.AddX(..).AddY(..)\<close>: every call is made on the Entry the call before returned.
\<close>

datatype 'e add_call =
  Call_AddFields Fields
  | Call_AddErr "'e option"
  | Call_AddError string "'e option"
  | Call_AddBool string bool
  | Call_AddInt string int
  | Call_AddStr string string
  | Call_AddTime string int
  | Call_AddDur string int
  | Call_AddAny string val

fun do_call ::
  "('e \<Rightarrow> string) \<Rightarrow> ('e \<Rightarrow> string) \<Rightarrow> 'e add_call \<Rightarrow> addr \<Rightarrow> world \<Rightarrow> addr result \<times> world" where
  "do_call m t (Call_AddFields fs) l = AddFields l fs"
| "do_call m t (Call_AddErr err) l = AddErr m t l err"
| "do_call m t (Call_AddError key err) l = AddError m t l key err"
| "do_call m t (Call_AddBool key v) l = AddBool l key v"
| "do_call m t (Call_AddInt key v) l = AddInt l key v"
| "do_call m t (Call_AddStr key v) l = AddStr l key v"
| "do_call m t (Call_AddTime key v) l = AddTime l key v"
| "do_call m t (Call_AddDur key v) l = AddDur l key v"
| "do_call m t (Call_AddAny key v) l = AddAny l key v"

fun chain ::
  "('e \<Rightarrow> string) \<Rightarrow> ('e \<Rightarrow> string) \<Rightarrow> 'e add_call list \<Rightarrow> addr \<Rightarrow> world
   \<Rightarrow> addr result \<times> world" where
  "chain m t [] l s = (Returned l, s)"
| "chain m t (c # cs) l s = andThen (do_call m t c l) (chain m t cs) s"

text \<open>
  The reading of "the latest call that set the key": \<open>fields_set\<close> lists the fields one
  call names, \<open>latest\<close> looks a key up from the last call of a sequence backwards, and
  \<open>passes_error\<close> says that a call carries an error object where it takes one.
\<close>

fun fields_set :: "('e \<Rightarrow> string) \<Rightarrow> ('e \<Rightarrow> string) \<Rightarrow> 'e add_call \<Rightarrow> Fields" where
  "fields_set m t (Call_AddFields fs) = fs"
| "fields_set m t (Call_AddErr None) = Map.empty"
| "fields_set m t (Call_AddErr (Some e)) = [''err'' \<mapsto> VStr (m e), ''err_stack'' \<mapsto> VStr (t e)]"
| "fields_set m t (Call_AddError key None) = Map.empty"
| "fields_set m t (Call_AddError key (Some e)) =
     [key \<mapsto> VStr (m e), key @ ''_stack'' \<mapsto> VStr (t e)]"
| "fields_set m t (Call_AddBool key v) = [key \<mapsto> VBool v]"
| "fields_set m t (Call_AddInt key v) = [key \<mapsto> VInt v]"
| "fields_set m t (Call_AddStr key v) = [key \<mapsto> VStr v]"
| "fields_set m t (Call_AddTime key v) = [key \<mapsto> VTime v]"
| "fields_set m t (Call_AddDur key v) = [key \<mapsto> VDur v]"
| "fields_set m t (Call_AddAny key v) = [key \<mapsto> v]"

fun latest :: "('e \<Rightarrow> string) \<Rightarrow> ('e \<Rightarrow> string) \<Rightarrow> 'e add_call list \<Rightarrow> string \<Rightarrow> val option" where
  "latest m t [] k = None"
| "latest m t (c # cs) k =
     (case latest m t cs k of Some v \<Rightarrow> Some v | None \<Rightarrow> fields_set m t c k)"

fun passes_error :: "'e add_call \<Rightarrow> bool" where
  "passes_error (Call_AddErr None) = False"
| "passes_error (Call_AddError key None) = False"
| "passes_error c = True"

text \<open>The records that calls of \<^verbatim>\<open>Logln\<close> handed to the backend, oldest first.\<close>

fun handed :: "event list \<Rightarrow> log_record list" where
  "handed [] = []"
| "handed (Logln_call r # evs) = r # handed evs"
| "handed (ev # evs) = handed evs"

subsection \<open>Example inputs\<close>

definition example_levels :: levels where
  "example_levels =
     \<lparr>DebugLevel = 0, InfoLevel = 1, WarnLevel = 2, ErrorLevel = 3, FatalLevel = 4,
      PanicLevel = 5\<rparr>"

definition start :: world where
  "start = \<lparr>clock = 100, logs = [], ents = [], trace = []\<rparr>"

text \<open>The state after \<^verbatim>\<open>newLogrus(w, InfoLevel).WithField("svc", "x")\<close> for the output 0.\<close>

definition with_logger :: world where
  "with_logger =
     snd (andThen (newLogrus example_levels 0 1) (\<lambda>l. WithField l ''svc'' ''x'') start)"

section \<open>Auxiliary facts\<close>

lemma deref_SomeD: "deref xs a = Some x \<Longrightarrow> a < length xs \<and> xs ! a = x"
  by (auto simp: deref_def split: if_splits)

lemma deref_update: "a < length xs \<Longrightarrow> deref (xs[a := x]) a = Some x"
  by (simp add: deref_def)

lemma deref_append_new: "deref (xs @ [x]) (length xs) = Some x"
  by (simp add: deref_def)

lemma deref_append_old: "deref xs a = Some y \<Longrightarrow> deref (xs @ [x]) a = Some y"
  by (auto simp: deref_def nth_append split: if_splits)

lemma deref_fresh: "deref xs (length xs) = None"
  by (simp add: deref_def)

lemma FieldLogger_WithField_eq:
  "FieldLogger_WithField w key v = \<lparr>Logger = logger_of w, Data = (fields_of w)(key \<mapsto> v)\<rparr>"
  by (cases w) (simp_all add: Entry_WithField_def Entry_WithFields_def NewEntry_def)

lemma set_entry_result:
  assumes "deref (ents s) l = Some e"
  shows "set_entry l f s = (Returned (), s\<lparr>ents := (ents s)[l := e\<lparr>entry := f (entry e)\<rparr>]\<rparr>)"
  using assms by (simp add: set_entry_def)

lemma Flush_result:
  assumes "deref (ents s) l = Some e"
  shows "Flush u l msg s =
    (let r = \<lparr>rec_level = level e, rec_fields = Data (entry e), rec_msg = msg\<rparr>
     in (if u \<and> level e = logrus_PanicLevel then Panicked (LogrusPanic r)
         else if level e = logrus_FatalLevel then Exited 1
         else Returned (),
         s\<lparr>trace := trace s @ [Logln_call r]
            @ (if IsLevelEnabled (Logger (entry e)) (level e)
               then [Output (Out (Logger (entry e))) r] else [])
            @ (if level e = logrus_FatalLevel then [OsExit 1] else [])\<rparr>))"
  using assms
  by (cases "level e")
    (simp_all add: Flush_def andThen_def Entry_Logln_def IsLevelEnabled_def os_Exit_def Let_def)

lemma do_call_result:
  assumes "deref (ents s) l = Some e" and "passes_error c"
  shows "do_call m t c l s =
    (Returned l,
     s\<lparr>ents := (ents s)[l := e\<lparr>entry := (entry e)\<lparr>Data := Data (entry e) ++ fields_set m t c\<rparr>\<rparr>]\<rparr>)"
proof -
  from assms(1) have l: "l < length (ents s)" by (simp add: deref_SomeD)
  show ?thesis
  proof (cases c)
    case (Call_AddErr err)
    with assms(2) obtain x where "err = Some x" by (cases err) auto
    with Call_AddErr assms(1) l show ?thesis
      by (simp add: AddErr_def andThen_def set_entry_result deref_update
          Entry_WithField_def Entry_WithFields_def Let_def)
  next
    case (Call_AddError key err)
    with assms(2) obtain x where "err = Some x" by (cases err) auto
    with Call_AddError assms(1) l show ?thesis
      by (simp add: AddError_def andThen_def set_entry_result deref_update
          Entry_WithField_def Entry_WithFields_def Let_def)
  qed (use assms(1) in \<open>simp_all add: AddFields_def AddBool_def AddInt_def AddStr_def AddTime_def
      AddDur_def AddAny_def andThen_def set_entry_result Entry_WithField_def Entry_WithFields_def\<close>)
qed

lemma latest_Nil: "latest m t [] = Map.empty"
  by (rule ext) simp

lemma latest_Cons: "latest m t (c # cs) = fields_set m t c ++ latest m t cs"
  by (rule ext) (simp add: map_add_def)

lemma chain_result:
  assumes "deref (ents s) l = Some e" and "\<forall>c\<in>set cs. passes_error c"
  shows "chain m t cs l s =
    (Returned l,
     s\<lparr>ents := (ents s)[l := e\<lparr>entry := (entry e)\<lparr>Data := Data (entry e) ++ latest m t cs\<rparr>\<rparr>]\<rparr>)"
  using assms
proof (induction cs arbitrary: s e)
  case Nil
  then have "(ents s)[l := e] = ents s"
    using deref_SomeD [of "ents s" l e] by auto
  then show ?case by (simp add: latest_Nil)
next
  case (Cons c cs)
  let ?e1 = "e\<lparr>entry := (entry e)\<lparr>Data := Data (entry e) ++ fields_set m t c\<rparr>\<rparr>"
  let ?s1 = "s\<lparr>ents := (ents s)[l := ?e1]\<rparr>"
  from Cons.prems have l: "l < length (ents s)" by (simp add: deref_SomeD)
  from Cons.prems have step: "do_call m t c l s = (Returned l, ?s1)"
    by (simp add: do_call_result)
  have d1: "deref (ents ?s1) l = Some ?e1" using l by (simp add: deref_update)
  have rest: "\<forall>c\<in>set cs. passes_error c" using Cons.prems by simp
  show ?case
    using Cons.IH [OF d1 rest] step by (simp add: andThen_def latest_Cons)
qed

lemma constructor_result:
  assumes "deref (logs s) l = Some lg" and "(mk, lv) \<in> set constructors"
  shows "mk l s =
    (Returned (length (ents s)),
     s\<lparr>ents := ents s @ [\<lparr>level = lv, entry = \<lparr>Logger = logger_of (writer lg),
         Data = (fields_of (writer lg))(''time'' \<mapsto> VTime (clock s))\<rparr>\<rparr>]\<rparr>)"
  using assms
  by (auto simp: constructors_def Debug_def Info_def Warn_def Error_def Fatal_def Panic_def
      new_lEntry_def time_Now_def FieldLogger_WithField_eq)

lemma handed_Flush:
  assumes "deref (ents s) l = Some e"
  shows "handed (drop (length (trace s)) (trace (snd (Flush u l msg s))))
    = [\<lparr>rec_level = level e, rec_fields = Data (entry e), rec_msg = msg\<rparr>]"
  using assms by (simp add: Flush_result Let_def)

lemma AddError_result:
  assumes "deref (ents s) l = Some en"
  shows "AddError m t l key (Some e) s =
    (Returned l,
     s\<lparr>ents := (ents s)[l := en\<lparr>entry := (entry en)\<lparr>Data :=
        (Data (entry en))(key \<mapsto> VStr (m e), key @ ''_stack'' \<mapsto> VStr (t e))\<rparr>\<rparr>]\<rparr>)"
  using do_call_result [OF assms, of "Call_AddError key (Some e)" m t] by simp

lemma AddErr_is_AddError: "AddErr m t l err s = AddError m t l ''err'' err s"
  by (cases err) (simp_all add: AddErr_def AddError_def)

lemma AddStr_result:
  assumes "deref (ents s) l = Some e"
  shows "AddStr l k v s =
    (Returned l,
     s\<lparr>ents := (ents s)[l := e\<lparr>entry := (entry e)\<lparr>Data := (Data (entry e))(k \<mapsto> VStr v)\<rparr>\<rparr>]\<rparr>)"
  using do_call_result [OF assms, of "Call_AddStr k v"] by simp

lemma latest_untouched:
  "\<forall>c\<in>set cs. fields_set m t c k = None \<Longrightarrow> latest m t cs k = None"
  by (induction cs) simp_all

lemmas run_defs =
  andThen_def newLogrus_def ltolr_def new_lLog_def new_lEntry_def WithField_def deref_def
  Entry_WithField_def Entry_WithFields_def NewEntry_def time_Now_def set_entry_def os_Exit_def
  Entry_Logln_def IsLevelEnabled_def example_levels_def start_def with_logger_def

section \<open>Mapping a level to the backend\<close>

text \<open>
  C3. \<^verbatim>\<open>ltolr\<close> maps each of the six levels to the backend level of the same name, and
  panics on every other value instead of returning.
\<close>

theorem ltolr_total_on_levels:
  assumes "distinct (level_values c)" and "lvl \<notin> set (level_values c)"
  shows "ltolr c (DebugLevel c) = Returned logrus_DebugLevel
    \<and> ltolr c (InfoLevel c) = Returned logrus_InfoLevel
    \<and> ltolr c (WarnLevel c) = Returned logrus_WarnLevel
    \<and> ltolr c (ErrorLevel c) = Returned logrus_ErrorLevel
    \<and> ltolr c (FatalLevel c) = Returned logrus_FatalLevel
    \<and> ltolr c (PanicLevel c) = Returned logrus_PanicLevel
    \<and> ltolr c lvl = Panicked (CantMapLevel lvl)"
  using assms by (auto simp: ltolr_def level_values_def)

theorem ltolr_total_on_levels_witness:
  "distinct (level_values example_levels) \<and> 7 \<notin> set (level_values example_levels)
   \<and> ltolr example_levels 0 = Returned logrus_DebugLevel
   \<and> ltolr example_levels 1 = Returned logrus_InfoLevel
   \<and> ltolr example_levels 2 = Returned logrus_WarnLevel
   \<and> ltolr example_levels 3 = Returned logrus_ErrorLevel
   \<and> ltolr example_levels 4 = Returned logrus_FatalLevel
   \<and> ltolr example_levels 5 = Returned logrus_PanicLevel
   \<and> ltolr example_levels 7 = Panicked (CantMapLevel 7)"
  using ltolr_total_on_levels [of example_levels 7]
  by (simp add: example_levels_def level_values_def)

section \<open>Flushing an Entry\<close>

text \<open>
  C1. Flushing an Entry of the fatal level hands the record (level, fields, message) to
  the backend first and then exits the process with status 1: in the trace of the call
  the \<^verbatim>\<open>Logln\<close> call (and the backend's write, when its threshold admits the fatal
  level) comes before the call of \<^verbatim>\<open>os.Exit\<close>, which is the last event.
\<close>

theorem Flush_Fatal_logs_then_exits:
  assumes "deref (ents s) l = Some e" and "level e = logrus_FatalLevel"
  shows "Flush u l msg s =
    (Exited 1,
     s\<lparr>trace := trace s
        @ [Logln_call \<lparr>rec_level = logrus_FatalLevel, rec_fields = Data (entry e), rec_msg = msg\<rparr>]
        @ (if IsLevelEnabled (Logger (entry e)) logrus_FatalLevel
           then [Output (Out (Logger (entry e)))
                  \<lparr>rec_level = logrus_FatalLevel, rec_fields = Data (entry e), rec_msg = msg\<rparr>]
           else [])
        @ [OsExit 1]\<rparr>)"
  using assms by (simp add: Flush_result Let_def)

theorem Flush_Fatal_logs_then_exits_witness:
  "map_option level (deref (ents (snd (Fatal 1 with_logger))) 0) = Some logrus_FatalLevel
   \<and> fst (Flush False 0 ''out of disk'' (snd (Fatal 1 with_logger))) = Exited 1
   \<and> map (\<lambda>r. (rec_level r, rec_fields r ''svc'', rec_fields r ''time'', rec_msg r))
        (handed (trace (snd (Flush False 0 ''out of disk'' (snd (Fatal 1 with_logger))))))
     = [(logrus_FatalLevel, Some (VStr ''x''), Some (VTime 100), ''out of disk'')]
   \<and> last (trace (snd (Flush False 0 ''out of disk'' (snd (Fatal 1 with_logger))))) = OsExit 1"
  using Flush_Fatal_logs_then_exits [of "snd (Fatal 1 with_logger)" 0
      "\<lparr>level = logrus_FatalLevel, entry = \<lparr>Logger = \<lparr>Out = 0, LogLevel = logrus_InfoLevel\<rparr>,
          Data = [''svc'' \<mapsto> VStr ''x'', ''time'' \<mapsto> VTime 100]\<rparr>\<rparr>" False "''out of disk''"]
  by (simp add: run_defs Fatal_def)



section \<open>Building an Entry\<close>

text \<open>
  C2. \<^verbatim>\<open>Level(lvl)\<close> is the level-named constructor for each of the six levels, and for
  every other value it is \<^verbatim>\<open>Info()\<close>: it returns, and the Entry it returns has the info
  level.
\<close>

theorem Level_dispatch:
  assumes "distinct (level_values c)" and "lvl \<notin> set (level_values c)"
    and "deref (logs s) l = Some lg"
  shows "Level c l (DebugLevel c) s = Debug l s
    \<and> Level c l (InfoLevel c) s = Info l s
    \<and> Level c l (WarnLevel c) s = Warn l s
    \<and> Level c l (ErrorLevel c) s = Error l s
    \<and> Level c l (FatalLevel c) s = Fatal l s
    \<and> Level c l (PanicLevel c) s = Panic l s
    \<and> Level c l lvl s = Info l s
    \<and> fst (Level c l lvl s) = Returned (length (ents s))
    \<and> map_option level (deref (ents (snd (Level c l lvl s))) (length (ents s)))
        = Some logrus_InfoLevel"
proof -
  have ne: "InfoLevel c \<noteq> DebugLevel c" "WarnLevel c \<noteq> DebugLevel c"
    "WarnLevel c \<noteq> InfoLevel c" "ErrorLevel c \<noteq> DebugLevel c"
    "ErrorLevel c \<noteq> InfoLevel c" "ErrorLevel c \<noteq> WarnLevel c"
    "FatalLevel c \<noteq> DebugLevel c" "FatalLevel c \<noteq> InfoLevel c"
    "FatalLevel c \<noteq> WarnLevel c" "FatalLevel c \<noteq> ErrorLevel c"
    "PanicLevel c \<noteq> DebugLevel c" "PanicLevel c \<noteq> InfoLevel c"
    "PanicLevel c \<noteq> WarnLevel c" "PanicLevel c \<noteq> ErrorLevel c"
    "PanicLevel c \<noteq> FatalLevel c"
    using assms(1) by (auto simp: level_values_def)
  have d: "Level c l (DebugLevel c) s = Debug l s"
    by (simp add: Level_def)
  have i: "Level c l (InfoLevel c) s = Info l s"
    by (simp add: Level_def ne)
  have w: "Level c l (WarnLevel c) s = Warn l s"
    by (simp add: Level_def ne)
  have e: "Level c l (ErrorLevel c) s = Error l s"
    by (simp add: Level_def ne)
  have f: "Level c l (FatalLevel c) s = Fatal l s"
    by (simp add: Level_def ne)
  have p: "Level c l (PanicLevel c) s = Panic l s"
    by (simp add: Level_def ne)
  have fallback: "Level c l lvl s = Info l s"
    using assms(2) by (simp add: Level_def level_values_def)
  have "(Info, logrus_InfoLevel) \<in> set constructors" by (simp add: constructors_def)
  from constructor_result [OF assms(3) this]
  have "fst (Info l s) = Returned (length (ents s))"
    and "map_option level (deref (ents (snd (Info l s))) (length (ents s))) = Some logrus_InfoLevel"
    by (simp_all add: deref_append_new)
  with d i w e f p fallback show ?thesis by simp
qed

theorem Level_dispatch_witness:
  "distinct (level_values example_levels) \<and> 42 \<notin> set (level_values example_levels)
   \<and> deref (logs with_logger) 1 \<noteq> None
   \<and> Level example_levels 1 3 with_logger = Error 1 with_logger
   \<and> Level example_levels 1 42 with_logger = Info 1 with_logger
   \<and> fst (Level example_levels 1 42 with_logger) = Returned 0
   \<and> map_option level (deref (ents (snd (Level example_levels 1 42 with_logger))) 0)
       = Some logrus_InfoLevel"
  using Level_dispatch [of example_levels 42 with_logger 1
      "\<lparr>writer = FL_Entry \<lparr>Logger = \<lparr>Out = 0, LogLevel = logrus_InfoLevel\<rparr>,
          Data = [''svc'' \<mapsto> VStr ''x'']\<rparr>\<rparr>"]
  by (simp add: run_defs level_values_def Level_def Info_def Error_def)

text \<open>
  C5. Each of \<^verbatim>\<open>Debug()\<close>, \<^verbatim>\<open>Info()\<close>, \<^verbatim>\<open>Warn()\<close>, \<^verbatim>\<open>Error()\<close>, \<^verbatim>\<open>Fatal()\<close> and
  \<^verbatim>\<open>Panic()\<close> allocates a new Entry (at an address that held nothing) of the backend level
  of the same name, whose fields are the Logger's with \<^verbatim>\<open>time\<close> set to the clock at
  the call; a flush at any later clock hands over that stamp.
\<close>

theorem constructors_stamp_time:
  assumes "deref (logs s) l = Some lg"
  shows "deref (ents s) (length (ents s)) = None
    \<and> (\<forall>(mk, lv) \<in> set [(Debug, logrus_DebugLevel), (Info, logrus_InfoLevel),
            (Warn, logrus_WarnLevel), (Error, logrus_ErrorLevel), (Fatal, logrus_FatalLevel),
            (Panic, logrus_PanicLevel)].
         mk l s =
           (Returned (length (ents s)),
            s\<lparr>ents := ents s @ [\<lparr>level = lv, entry = \<lparr>Logger = logger_of (writer lg),
                Data = (fields_of (writer lg))(''time'' \<mapsto> VTime (clock s))\<rparr>\<rparr>]\<rparr>)
         \<and> (\<forall>msg now.
               handed (drop (length (trace s))
                 (trace (snd (Flush u (length (ents s)) msg ((snd (mk l s))\<lparr>clock := now\<rparr>)))))
               = [\<lparr>rec_level = lv,
                   rec_fields = (fields_of (writer lg))(''time'' \<mapsto> VTime (clock s)),
                   rec_msg = msg\<rparr>]))"
proof (intro conjI)
  show "deref (ents s) (length (ents s)) = None" by (rule deref_fresh)
  have one: "mk l s =
           (Returned (length (ents s)),
            s\<lparr>ents := ents s @ [\<lparr>level = lv, entry = \<lparr>Logger = logger_of (writer lg),
                Data = (fields_of (writer lg))(''time'' \<mapsto> VTime (clock s))\<rparr>\<rparr>]\<rparr>)
         \<and> (\<forall>msg now.
               handed (drop (length (trace s))
                 (trace (snd (Flush u (length (ents s)) msg ((snd (mk l s))\<lparr>clock := now\<rparr>)))))
               = [\<lparr>rec_level = lv,
                   rec_fields = (fields_of (writer lg))(''time'' \<mapsto> VTime (clock s)),
                   rec_msg = msg\<rparr>])"
    if mk: "(mk, lv) \<in> set constructors" for mk lv
  proof -
    let ?e = "\<lparr>level = lv, entry = \<lparr>Logger = logger_of (writer lg),
                Data = (fields_of (writer lg))(''time'' \<mapsto> VTime (clock s))\<rparr>\<rparr>"
    let ?s1 = "s\<lparr>ents := ents s @ [?e]\<rparr>"
    have r: "mk l s = (Returned (length (ents s)), ?s1)"
      by (rule constructor_result [OF assms mk])
    have "deref (ents (?s1\<lparr>clock := now\<rparr>)) (length (ents s)) = Some ?e" for now
      by (simp add: deref_append_new)
    from handed_Flush [OF this] r show ?thesis by simp
  qed
  then show "\<forall>(mk, lv) \<in> set [(Debug, logrus_DebugLevel), (Info, logrus_InfoLevel),
            (Warn, logrus_WarnLevel), (Error, logrus_ErrorLevel), (Fatal, logrus_FatalLevel),
            (Panic, logrus_PanicLevel)].
         mk l s =
           (Returned (length (ents s)),
            s\<lparr>ents := ents s @ [\<lparr>level = lv, entry = \<lparr>Logger = logger_of (writer lg),
                Data = (fields_of (writer lg))(''time'' \<mapsto> VTime (clock s))\<rparr>\<rparr>]\<rparr>)
         \<and> (\<forall>msg now.
               handed (drop (length (trace s))
                 (trace (snd (Flush u (length (ents s)) msg ((snd (mk l s))\<lparr>clock := now\<rparr>)))))
               = [\<lparr>rec_level = lv,
                   rec_fields = (fields_of (writer lg))(''time'' \<mapsto> VTime (clock s)),
                   rec_msg = msg\<rparr>])"
    unfolding constructors_def [symmetric] by blast
qed

theorem constructors_stamp_time_witness:
  "deref (logs with_logger) 1 = Some \<lparr>writer = FL_Entry \<lparr>Logger = \<lparr>Out = 0, LogLevel = logrus_InfoLevel\<rparr>,
          Data = [''svc'' \<mapsto> VStr ''x'']\<rparr>\<rparr>
   \<and> clock with_logger = 100
   \<and> fst (Error 1 with_logger) = Returned 0
   \<and> map_option (\<lambda>e. (level e, map (Data (entry e)) [''svc'', ''time'', ''n'']))
        (deref (ents (snd (Error 1 with_logger))) 0)
      = Some (logrus_ErrorLevel, [Some (VStr ''x''), Some (VTime 100), None])
   \<and> map (\<lambda>r. (rec_level r, rec_fields r ''time'', rec_msg r))
        (handed (trace (snd (Flush False 0 ''late'' ((snd (Error 1 with_logger))\<lparr>clock := 250\<rparr>)))))
      = [(logrus_ErrorLevel, Some (VTime 100), ''late'')]"
  using constructors_stamp_time [of with_logger 1
      "\<lparr>writer = FL_Entry \<lparr>Logger = \<lparr>Out = 0, LogLevel = logrus_InfoLevel\<rparr>,
          Data = [''svc'' \<mapsto> VStr ''x'']\<rparr>\<rparr>"]
  by (simp add: run_defs Error_def Flush_def Let_def)


section \<open>Deriving a Logger\<close>

text \<open>
  C4. \<^verbatim>\<open>WithField\<close> returns a new Logger, with the backend logger of the receiver and
  the receiver's fields with the one field set. It writes nothing else: the receiver and
  every Logger that existed keep their objects, and an Entry built from the receiver
  afterwards is the one built before, which lacks the key unless the receiver had it or
  the key is \<^verbatim>\<open>time\<close>.
\<close>

theorem WithField_leaves_receiver:
  assumes "deref (logs s) l = Some lg"
  shows "\<exists>s'. WithField l key v s = (Returned (length (logs s)), s')
    \<and> l \<noteq> length (logs s)
    \<and> map_option (fields_of \<circ> writer) (deref (logs s') (length (logs s)))
        = Some ((fields_of (writer lg))(key \<mapsto> VStr v))
    \<and> map_option (logger_of \<circ> writer) (deref (logs s') (length (logs s)))
        = Some (logger_of (writer lg))
    \<and> take (length (logs s)) (logs s') = logs s
    \<and> deref (logs s') l = Some lg
    \<and> ents s' = ents s \<and> trace s' = trace s \<and> clock s' = clock s
    \<and> (\<forall>(mk, lv) \<in> set constructors.
          fst (mk l s') = fst (mk l s)
          \<and> ents (snd (mk l s')) = ents (snd (mk l s))
          \<and> map_option (Data \<circ> entry) (deref (ents (snd (mk l s'))) (length (ents s)))
             = Some ((fields_of (writer lg))(''time'' \<mapsto> VTime (clock s)))
          \<and> (key \<notin> dom (fields_of (writer lg)) \<longrightarrow> key \<noteq> ''time'' \<longrightarrow>
               map_option (\<lambda>e. Data (entry e) key)
                 (deref (ents (snd (mk l s'))) (length (ents s)))
               = Some None))"
proof -
  let ?n = "\<lparr>writer = FL_Entry (FieldLogger_WithField (writer lg) key (VStr v))\<rparr>"
  let ?s' = "s\<lparr>logs := logs s @ [?n]\<rparr>"
  have eq: "WithField l key v s = (Returned (length (logs s)), ?s')"
    using assms by (simp add: WithField_def new_lLog_def)
  have l: "l \<noteq> length (logs s)" using assms by (auto dest: deref_SomeD)
  have old: "deref (logs ?s') l = Some lg"
    using assms by (simp add: deref_append_old)
  have built: "fst (mk l ?s') = fst (mk l s)
      \<and> ents (snd (mk l ?s')) = ents (snd (mk l s))
      \<and> map_option (Data \<circ> entry) (deref (ents (snd (mk l ?s'))) (length (ents s)))
         = Some ((fields_of (writer lg))(''time'' \<mapsto> VTime (clock s)))
      \<and> (key \<notin> dom (fields_of (writer lg)) \<longrightarrow> key \<noteq> ''time'' \<longrightarrow>
           map_option (\<lambda>e. Data (entry e) key) (deref (ents (snd (mk l ?s'))) (length (ents s)))
           = Some None)"
    if "(mk, lv) \<in> set constructors" for mk lv
    using constructor_result [OF old that] constructor_result [OF assms that]
    by (auto simp: deref_append_new)
  show ?thesis
  proof (rule exI [of _ ?s'], intro conjI)
    show "WithField l key v s = (Returned (length (logs s)), ?s')" by (rule eq)
    show "l \<noteq> length (logs s)" by (rule l)
    show "map_option (fields_of \<circ> writer) (deref (logs ?s') (length (logs s)))
        = Some ((fields_of (writer lg))(key \<mapsto> VStr v))"
      by (simp add: deref_append_new FieldLogger_WithField_eq)
    show "map_option (logger_of \<circ> writer) (deref (logs ?s') (length (logs s)))
        = Some (logger_of (writer lg))"
      by (simp add: deref_append_new FieldLogger_WithField_eq)
    show "take (length (logs s)) (logs ?s') = logs s" by simp
    show "deref (logs ?s') l = Some lg" by (rule old)
    show "ents ?s' = ents s" by simp
    show "trace ?s' = trace s" by simp
    show "clock ?s' = clock s" by simp
    show "\<forall>(mk, lv) \<in> set constructors.
          fst (mk l ?s') = fst (mk l s)
          \<and> ents (snd (mk l ?s')) = ents (snd (mk l s))
          \<and> map_option (Data \<circ> entry) (deref (ents (snd (mk l ?s'))) (length (ents s)))
             = Some ((fields_of (writer lg))(''time'' \<mapsto> VTime (clock s)))
          \<and> (key \<notin> dom (fields_of (writer lg)) \<longrightarrow> key \<noteq> ''time'' \<longrightarrow>
               map_option (\<lambda>e. Data (entry e) key)
                 (deref (ents (snd (mk l ?s'))) (length (ents s)))
               = Some None)"
      using built by blast
  qed
qed

theorem WithField_leaves_receiver_witness:
  "deref (logs with_logger) 1 = Some \<lparr>writer = FL_Entry \<lparr>Logger = \<lparr>Out = 0, LogLevel = logrus_InfoLevel\<rparr>,
          Data = [''svc'' \<mapsto> VStr ''x'']\<rparr>\<rparr>
   \<and> fst (WithField 1 ''env'' ''prod'' with_logger) = Returned 2
   \<and> map_option (\<lambda>x. map (fields_of (writer x)) [''svc'', ''env''])
        (deref (logs (snd (WithField 1 ''env'' ''prod'' with_logger))) 2)
      = Some [Some (VStr ''x''), Some (VStr ''prod'')]
   \<and> deref (logs (snd (WithField 1 ''env'' ''prod'' with_logger))) 1 = deref (logs with_logger) 1
   \<and> map_option (\<lambda>e. map (Data (entry e)) [''svc'', ''env'', ''time''])
        (deref (ents (snd (Info 1 (snd (WithField 1 ''env'' ''prod'' with_logger))))) 0)
      = Some [Some (VStr ''x''), None, Some (VTime 100)]"
  using WithField_leaves_receiver [of with_logger 1
      "\<lparr>writer = FL_Entry \<lparr>Logger = \<lparr>Out = 0, LogLevel = logrus_InfoLevel\<rparr>,
          Data = [''svc'' \<mapsto> VStr ''x'']\<rparr>\<rparr>" "''env''" "''prod''"]
  by (simp add: run_defs Info_def)

section \<open>Attaching fields to an Entry\<close>

text \<open>
  C7. For an error object \<open>e\<close>, \<^verbatim>\<open>AddErr\<close> returns the Entry it was called on with two
  fields set and no other changed: \<^verbatim>\<open>err\<close> is the text of \<^verbatim>\<open>e.Error()\<close> and \<^verbatim>\<open>err_stack\<close>
  is the text of \<^verbatim>\<open>errors.ErrorStack(e)\<close>, present whatever that text is, the empty
  string included. (A nil \<^verbatim>\<open>error\<close> is no error object: the call of \<^verbatim>\<open>Error()\<close> panics.)
\<close>

theorem AddErr_attaches_err_and_stack:
  assumes "deref (ents s) l = Some en"
  shows "\<exists>D'. AddErr m t l (Some e) s =
      (Returned l, s\<lparr>ents := (ents s)[l := en\<lparr>entry := (entry en)\<lparr>Data := D'\<rparr>\<rparr>]\<rparr>)
    \<and> D' ''err'' = Some (VStr (m e))
    \<and> D' ''err_stack'' = Some (VStr (t e))
    \<and> (\<forall>k. k \<noteq> ''err'' \<longrightarrow> k \<noteq> ''err_stack'' \<longrightarrow> D' k = Data (entry en) k)
    \<and> dom D' = dom (Data (entry en)) \<union> {''err'', ''err_stack''}"
proof -
  let ?D = "(Data (entry en))(''err'' \<mapsto> VStr (m e), ''err_stack'' \<mapsto> VStr (t e))"
  have "AddErr m t l (Some e) s =
      (Returned l, s\<lparr>ents := (ents s)[l := en\<lparr>entry := (entry en)\<lparr>Data := ?D\<rparr>\<rparr>]\<rparr>)"
    using AddError_result [OF assms, of m t "''err''" e] by (simp add: AddErr_is_AddError)
  moreover have "?D ''err'' = Some (VStr (m e))" by simp
  moreover have "?D ''err_stack'' = Some (VStr (t e))" by simp
  moreover have "\<forall>k. k \<noteq> ''err'' \<longrightarrow> k \<noteq> ''err_stack'' \<longrightarrow> ?D k = Data (entry en) k" by simp
  moreover have "dom ?D = dom (Data (entry en)) \<union> {''err'', ''err_stack''}" by auto
  ultimately show ?thesis by blast
qed

theorem AddErr_attaches_err_and_stack_witness:
  "deref (ents (snd (Info 1 with_logger))) 0 \<noteq> None
   \<and> fst (AddErr (\<lambda>e. e) (\<lambda>e. []) 0 (Some ''disk full'') (snd (Info 1 with_logger))) = Returned 0
   \<and> map_option (\<lambda>e. map (Data (entry e)) [''svc'', ''time'', ''err'', ''err_stack'', ''n''])
        (deref (ents (snd (AddErr (\<lambda>e. e) (\<lambda>e. []) 0 (Some ''disk full'')
           (snd (Info 1 with_logger))))) 0)
      = Some [Some (VStr ''x''), Some (VTime 100), Some (VStr ''disk full''), Some (VStr []), None]"
  using AddErr_attaches_err_and_stack [of "snd (Info 1 with_logger)" 0
      "\<lparr>level = logrus_InfoLevel, entry = \<lparr>Logger = \<lparr>Out = 0, LogLevel = logrus_InfoLevel\<rparr>,
          Data = [''svc'' \<mapsto> VStr ''x'', ''time'' \<mapsto> VTime 100]\<rparr>\<rparr>"
      "\<lambda>e. e" "\<lambda>e. []" "''disk full''"]
  by (simp add: run_defs Info_def AddErr_def)

text \<open>
  C8. For a key and an error object \<open>e\<close>, \<^verbatim>\<open>AddError\<close> sets the key to the text of
  \<^verbatim>\<open>e.Error()\<close> and the key followed by \<^verbatim>\<open>_stack\<close> to the text of
  \<^verbatim>\<open>errors.ErrorStack(e)\<close>, and changes no other field; \<^verbatim>\<open>AddErr(err)\<close> is
  \<^verbatim>\<open>AddError("err", err)\<close> on every Entry and for every argument.
\<close>

theorem AddError_attaches_key_and_stack:
  assumes "deref (ents s) l = Some en"
  shows "(\<exists>D'. AddError m t l key (Some e) s =
        (Returned l, s\<lparr>ents := (ents s)[l := en\<lparr>entry := (entry en)\<lparr>Data := D'\<rparr>\<rparr>]\<rparr>)
      \<and> D' key = Some (VStr (m e))
      \<and> D' (key @ ''_stack'') = Some (VStr (t e))
      \<and> (\<forall>k. k \<noteq> key \<longrightarrow> k \<noteq> key @ ''_stack'' \<longrightarrow> D' k = Data (entry en) k))
    \<and> (\<forall>err l' s'. AddErr m t l' err s' = AddError m t l' ''err'' err s')"
proof -
  let ?D = "(Data (entry en))(key \<mapsto> VStr (m e), key @ ''_stack'' \<mapsto> VStr (t e))"
  have "AddError m t l key (Some e) s =
      (Returned l, s\<lparr>ents := (ents s)[l := en\<lparr>entry := (entry en)\<lparr>Data := ?D\<rparr>\<rparr>]\<rparr>)"
    by (rule AddError_result [OF assms])
  moreover have "?D key = Some (VStr (m e))" by simp
  moreover have "?D (key @ ''_stack'') = Some (VStr (t e))" by simp
  moreover have "\<forall>k. k \<noteq> key \<longrightarrow> k \<noteq> key @ ''_stack'' \<longrightarrow> ?D k = Data (entry en) k" by simp
  moreover have "\<forall>err l' s'. AddErr m t l' err s' = AddError m t l' ''err'' err s'"
    by (simp add: AddErr_is_AddError)
  ultimately show ?thesis by blast
qed

theorem AddError_attaches_key_and_stack_witness:
  "deref (ents (snd (Info 1 with_logger))) 0 \<noteq> None
   \<and> fst (AddError (\<lambda>e. e) (\<lambda>e. ''main.go:7: '' @ e) 0 ''db'' (Some ''timeout'')
        (snd (Info 1 with_logger))) = Returned 0
   \<and> map_option (\<lambda>e. map (Data (entry e)) [''svc'', ''db'', ''db_stack'', ''err''])
        (deref (ents (snd (AddError (\<lambda>e. e) (\<lambda>e. ''main.go:7: '' @ e) 0 ''db'' (Some ''timeout'')
           (snd (Info 1 with_logger))))) 0)
      = Some [Some (VStr ''x''), Some (VStr ''timeout''), Some (VStr ''main.go:7: timeout''), None]
   \<and> AddErr (\<lambda>e. e) (\<lambda>e. ''main.go:7: '' @ e) 0 (Some ''timeout'') (snd (Info 1 with_logger))
      = AddError (\<lambda>e. e) (\<lambda>e. ''main.go:7: '' @ e) 0 ''err'' (Some ''timeout'')
          (snd (Info 1 with_logger))"
  using AddError_attaches_key_and_stack [of "snd (Info 1 with_logger)" 0
      "\<lparr>level = logrus_InfoLevel, entry = \<lparr>Logger = \<lparr>Out = 0, LogLevel = logrus_InfoLevel\<rparr>,
          Data = [''svc'' \<mapsto> VStr ''x'', ''time'' \<mapsto> VTime 100]\<rparr>\<rparr>"
      "\<lambda>e. e" "\<lambda>e. ''main.go:7: '' @ e" "''db''" "''timeout''"]
  by (simp add: run_defs Info_def AddError_def AddErr_def)

text \<open>
  C6. After any chain of \<^verbatim>\<open>Add\<close> calls that pass error objects where they take an error,
  the Entry is the one the chain started from and each key holds the value of the latest
  call that set it, or its old value when no call did; a flush hands over exactly these
  fields. So \<^verbatim>\<open>AddStr(k, a)\<close>, \<^verbatim>\<open>AddStr(k, b)\<close> and \<^verbatim>\<open>Flush\<close> hand over \<open>b\<close> under \<open>k\<close>.
\<close>

theorem Add_last_write_wins:
  assumes "deref (ents s) l = Some e" and "\<forall>c\<in>set cs. passes_error c"
  shows "(\<exists>D'. chain m t cs l s =
        (Returned l, s\<lparr>ents := (ents s)[l := e\<lparr>entry := (entry e)\<lparr>Data := D'\<rparr>\<rparr>]\<rparr>)
      \<and> (\<forall>k. D' k = (case latest m t cs k of Some v \<Rightarrow> Some v | None \<Rightarrow> Data (entry e) k))
      \<and> (\<forall>msg. handed (drop (length (trace s))
            (trace (snd (Flush u l msg (snd (chain m t cs l s))))))
          = [\<lparr>rec_level = level e, rec_fields = D', rec_msg = msg\<rparr>]))
    \<and> (\<forall>k a b msg. \<exists>r.
          handed (drop (length (trace s))
            (trace (snd (andThen (AddStr l k a)
               (\<lambda>l1. andThen (AddStr l1 k b) (\<lambda>l2. Flush u l2 msg)) s)))) = [r]
          \<and> rec_fields r k = Some (VStr b))"
proof (intro conjI)
  let ?D = "Data (entry e) ++ latest m t cs"
  let ?e' = "e\<lparr>entry := (entry e)\<lparr>Data := ?D\<rparr>\<rparr>"
  let ?s' = "s\<lparr>ents := (ents s)[l := ?e']\<rparr>"
  have l: "l < length (ents s)" using assms(1) by (simp add: deref_SomeD)
  have run: "chain m t cs l s = (Returned l, ?s')"
    by (rule chain_result [OF assms])
  have look: "\<forall>k. ?D k = (case latest m t cs k of Some v \<Rightarrow> Some v | None \<Rightarrow> Data (entry e) k)"
    by (simp add: map_add_def)
  have d: "deref (ents ?s') l = Some ?e'" using l by (simp add: deref_update)
  have flush: "\<forall>msg. handed (drop (length (trace s))
            (trace (snd (Flush u l msg (snd (chain m t cs l s))))))
          = [\<lparr>rec_level = level e, rec_fields = ?D, rec_msg = msg\<rparr>]"
    using handed_Flush [OF d] by (simp add: run)
  from run look flush
  show "\<exists>D'. chain m t cs l s =
        (Returned l, s\<lparr>ents := (ents s)[l := e\<lparr>entry := (entry e)\<lparr>Data := D'\<rparr>\<rparr>]\<rparr>)
      \<and> (\<forall>k. D' k = (case latest m t cs k of Some v \<Rightarrow> Some v | None \<Rightarrow> Data (entry e) k))
      \<and> (\<forall>msg. handed (drop (length (trace s))
            (trace (snd (Flush u l msg (snd (chain m t cs l s))))))
          = [\<lparr>rec_level = level e, rec_fields = D', rec_msg = msg\<rparr>])"
    by blast
  show "\<forall>k a b msg. \<exists>r.
          handed (drop (length (trace s))
            (trace (snd (andThen (AddStr l k a)
               (\<lambda>l1. andThen (AddStr l1 k b) (\<lambda>l2. Flush u l2 msg)) s)))) = [r]
          \<and> rec_fields r k = Some (VStr b)"
  proof (intro allI)
    fix k a b msg
    let ?e1 = "e\<lparr>entry := (entry e)\<lparr>Data := (Data (entry e))(k \<mapsto> VStr a)\<rparr>\<rparr>"
    let ?s1 = "s\<lparr>ents := (ents s)[l := ?e1]\<rparr>"
    let ?e2 = "?e1\<lparr>entry := (entry ?e1)\<lparr>Data := (Data (entry ?e1))(k \<mapsto> VStr b)\<rparr>\<rparr>"
    let ?s2 = "?s1\<lparr>ents := (ents ?s1)[l := ?e2]\<rparr>"
    have a1: "AddStr l k a s = (Returned l, ?s1)" by (rule AddStr_result [OF assms(1)])
    have d1: "deref (ents ?s1) l = Some ?e1" using l by (simp add: deref_update)
    have a2: "AddStr l k b ?s1 = (Returned l, ?s2)" by (rule AddStr_result [OF d1])
    have d2: "deref (ents ?s2) l = Some ?e2" using l by (simp add: deref_update)
    have "andThen (AddStr l k a) (\<lambda>l1. andThen (AddStr l1 k b) (\<lambda>l2. Flush u l2 msg)) s
      = Flush u l msg ?s2"
      by (simp add: andThen_def a1 a2)
    with handed_Flush [OF d2, of u msg]
    show "\<exists>r. handed (drop (length (trace s))
            (trace (snd (andThen (AddStr l k a)
               (\<lambda>l1. andThen (AddStr l1 k b) (\<lambda>l2. Flush u l2 msg)) s)))) = [r]
          \<and> rec_fields r k = Some (VStr b)"
      by simp
  qed
qed


theorem Add_last_write_wins_witness:
  "deref (ents (snd (Info 1 with_logger))) 0 \<noteq> None
   \<and> list_all passes_error
        [Call_AddStr ''k'' ''a'', Call_AddFields [''k'' \<mapsto> VInt 7, ''n'' \<mapsto> VInt 5],
         Call_AddErr (Some ''gone''), Call_AddStr ''k'' ''b'']
   \<and> fst (chain (\<lambda>e. e) (\<lambda>e. []) 
        [Call_AddStr ''k'' ''a'', Call_AddFields [''k'' \<mapsto> VInt 7, ''n'' \<mapsto> VInt 5],
         Call_AddErr (Some ''gone''), Call_AddStr ''k'' ''b''] 0 (snd (Info 1 with_logger)))
       = Returned 0
   \<and> map (\<lambda>r. (map (rec_fields r) [''k'', ''n'', ''err'', ''svc'', ''zz''], rec_msg r))
        (handed (trace (snd (Flush False 0 ''done'' (snd (chain (\<lambda>e. e) (\<lambda>e. []) 
        [Call_AddStr ''k'' ''a'', Call_AddFields [''k'' \<mapsto> VInt 7, ''n'' \<mapsto> VInt 5],
         Call_AddErr (Some ''gone''), Call_AddStr ''k'' ''b''] 0 (snd (Info 1 with_logger)))))))) 
      = [([Some (VStr ''b''), Some (VInt 5), Some (VStr ''gone''), Some (VStr ''x''), None], ''done'')]"
  using Add_last_write_wins [of "snd (Info 1 with_logger)" 0
      "\<lparr>level = logrus_InfoLevel, entry = \<lparr>Logger = \<lparr>Out = 0, LogLevel = logrus_InfoLevel\<rparr>,
          Data = [''svc'' \<mapsto> VStr ''x'', ''time'' \<mapsto> VTime 100]\<rparr>\<rparr>"
      "[Call_AddStr ''k'' ''a'', Call_AddFields [''k'' \<mapsto> VInt 7, ''n'' \<mapsto> VInt 5],
         Call_AddErr (Some ''gone''), Call_AddStr ''k'' ''b'']" "\<lambda>e. e" "\<lambda>e. []"]
  by (simp add: run_defs Info_def AddStr_def AddFields_def AddErr_def Flush_def Let_def)

section \<open>The time field\<close>

text \<open>
  C9, as stated: the \<^verbatim>\<open>time\<close> field holds the stamp of the construction after every
  \<^verbatim>\<open>Add\<close> operation. An \<^verbatim>\<open>Add\<close> call with the key \<^verbatim>\<open>time\<close> replaces the stamp like the
  value of any other key, and the flush hands over the replacement.
\<close>

theorem time_field_overwritten:
  "map_option (\<lambda>e. Data (entry e) ''time'') (deref (ents (snd (Info 1 with_logger))) 0)
     = Some (Some (VTime 100))
   \<and> map_option (\<lambda>e. Data (entry e) ''time'')
        (deref (ents (snd (andThen (Info 1) (\<lambda>e. AddStr e ''time'' ''noon'') with_logger))) 0)
     = Some (Some (VStr ''noon''))
   \<and> map (\<lambda>r. rec_fields r ''time'')
        (handed (trace (snd (andThen (Info 1)
           (\<lambda>e. andThen (AddStr e ''time'' ''noon'') (\<lambda>e. Flush False e ''msg'')) with_logger))))
     = [Some (VStr ''noon'')]
   \<and> VStr ''noon'' \<noteq> VTime 100"
  by (simp add: run_defs Info_def AddStr_def Flush_def Let_def)

text \<open>
  C9, amended. An Entry has a \<^verbatim>\<open>time\<close> field from its construction on (the fields are a
  map, so it has one). After any chain of \<^verbatim>\<open>Add\<close> calls none of which sets the key
  \<^verbatim>\<open>time\<close>, the field still holds the clock of the construction, and a flush at any
  later clock hands over that value.
\<close>

theorem time_field_keeps_construction_stamp:
  assumes "deref (logs s) l = Some lg" and "(mk, lv) \<in> set constructors"
    and "\<forall>c\<in>set cs. passes_error c \<and> fields_set m t c ''time'' = None"
  shows "\<exists>a s1 s2. mk l s = (Returned a, s1) \<and> chain m t cs a s1 = (Returned a, s2)
    \<and> map_option (\<lambda>e. Data (entry e) ''time'') (deref (ents s1) a) = Some (Some (VTime (clock s)))
    \<and> map_option (\<lambda>e. Data (entry e) ''time'') (deref (ents s2) a) = Some (Some (VTime (clock s)))
    \<and> (\<forall>msg now. map (\<lambda>r. rec_fields r ''time'')
          (handed (drop (length (trace s)) (trace (snd (Flush u a msg (s2\<lparr>clock := now\<rparr>))))))
        = [Some (VTime (clock s))])"
proof -
  let ?a = "length (ents s)"
  let ?e = "\<lparr>level = lv, entry = \<lparr>Logger = logger_of (writer lg),
      Data = (fields_of (writer lg))(''time'' \<mapsto> VTime (clock s))\<rparr>\<rparr>"
  let ?s1 = "s\<lparr>ents := ents s @ [?e]\<rparr>"
  let ?e' = "?e\<lparr>entry := (entry ?e)\<lparr>Data := Data (entry ?e) ++ latest m t cs\<rparr>\<rparr>"
  let ?s2 = "?s1\<lparr>ents := (ents ?s1)[?a := ?e']\<rparr>"
  have mk: "mk l s = (Returned ?a, ?s1)"
    by (rule constructor_result [OF assms(1,2)])
  have d1: "deref (ents ?s1) ?a = Some ?e" by (simp add: deref_append_new)
  have ok: "\<forall>c\<in>set cs. passes_error c" using assms(3) by simp
  have run: "chain m t cs ?a ?s1 = (Returned ?a, ?s2)"
    by (rule chain_result [OF d1 ok])
  have none: "latest m t cs ''time'' = None"
    using assms(3) by (simp add: latest_untouched)
  have d2: "deref (ents (?s2\<lparr>clock := now\<rparr>)) ?a = Some ?e'" for now
    by (simp add: deref_append_new)
  have t1: "map_option (\<lambda>e. Data (entry e) ''time'') (deref (ents ?s1) ?a)
      = Some (Some (VTime (clock s)))"
    by (simp add: deref_append_new)
  have t2: "map_option (\<lambda>e. Data (entry e) ''time'') (deref (ents ?s2) ?a)
      = Some (Some (VTime (clock s)))"
    using none by (simp add: deref_append_new map_add_def)
  have t3: "\<forall>msg now. map (\<lambda>r. rec_fields r ''time'')
          (handed (drop (length (trace s)) (trace (snd (Flush u ?a msg (?s2\<lparr>clock := now\<rparr>))))))
        = [Some (VTime (clock s))]"
    using handed_Flush [OF d2] none by (simp add: map_add_def)
  from mk run t1 t2 t3 show ?thesis by blast
qed

theorem time_field_keeps_construction_stamp_witness:
  "deref (logs with_logger) 1 \<noteq> None
   \<and> (Warn, logrus_WarnLevel) \<in> set constructors
   \<and> list_all (\<lambda>c. passes_error c \<and> fields_set (\<lambda>e. e) (\<lambda>e. []) c ''time'' = None)
        [Call_AddInt ''n'' 5, Call_AddError ''db'' (Some ''timeout''), Call_AddTime ''at'' 7]
   \<and> clock with_logger = 100
   \<and> map (\<lambda>r. (rec_level r, map (rec_fields r) [''time'', ''n'', ''db'', ''at'']))
        (handed (trace (snd (andThen (Warn 1)
           (\<lambda>a s1. andThen (chain (\<lambda>e. e) (\<lambda>e. [])
                [Call_AddInt ''n'' 5, Call_AddError ''db'' (Some ''timeout''), Call_AddTime ''at'' 7] a)
              (\<lambda>a s2. Flush False a ''slow'' (s2\<lparr>clock := 250\<rparr>)) s1) with_logger))))
     = [(logrus_WarnLevel, [Some (VTime 100), Some (VInt 5), Some (VStr ''timeout''), Some (VTime 7)])]"
  using time_field_keeps_construction_stamp [of with_logger 1
      "\<lparr>writer = FL_Entry \<lparr>Logger = \<lparr>Out = 0, LogLevel = logrus_InfoLevel\<rparr>,
          Data = [''svc'' \<mapsto> VStr ''x'']\<rparr>\<rparr>" Warn logrus_WarnLevel
      "[Call_AddInt ''n'' 5, Call_AddError ''db'' (Some ''timeout''), Call_AddTime ''at'' 7]"
      "\<lambda>e. e" "\<lambda>e. []"]
  by (simp add: run_defs constructors_def Warn_def AddInt_def AddError_def AddTime_def
      Flush_def Let_def)


end
